theory Spec2Isabelle
  imports Main "HOL-Library.Word"
begin

section \<open>The cache of main.go\<close>

text \<open>
  The model is sequential: the lock \<open>mx\<close> of the Go struct is not represented, and
  every method takes the cache and returns it, updated, beside its Go results.
  The wall clock is an input: each call of \<open>time.Now().Unix()\<close> is a parameter
  of type \<open>int64\<close> of the method that makes it. \<open>int64\<close> is a 64-bit word, read
  as two's complement by \<open>sint\<close> where Go compares, and added with wrap-around.
\<close>

type_synonym int64 = "64 word"

text \<open>The three error strings of the const block.\<close>

datatype error = ErrKeyNotFound | ErrKeyExists | ErrExpired

text \<open>A Go \<open>interface{}\<close>: the nil interface, or a dynamic value.\<close>

datatype 'v iface = INil | IVal 'v

text \<open>\<open>CacheItem\<close>; the field \<open>value\<close> is named \<open>val\<close> here.\<close>

record 'v CacheItem =
  val :: "'v iface"
  expiration :: int64

record 'v Cache =
  data :: "string \<rightharpoonup> 'v CacheItem"

text \<open>Reading a Go map at a missing key gives the zero value of the element type.\<close>

definition zero_CacheItem :: "'v CacheItem" where
  "zero_CacheItem = \<lparr>val = INil, expiration = 0\<rparr>"

definition index_data :: "'v Cache \<Rightarrow> string \<Rightarrow> 'v CacheItem" where
  "index_data c key = (case data c key of None \<Rightarrow> zero_CacheItem | Some d \<Rightarrow> d)"

text \<open>\<open>NewCache\<close>: an empty map, then every option applied in order.\<close>

definition NewCache :: "('v Cache \<Rightarrow> 'v Cache) list \<Rightarrow> 'v Cache" where
  "NewCache options = fold (\<lambda>option c. option c) options \<lparr>data = Map.empty\<rparr>"

text \<open>
  \<open>Set\<close>. \<open>now1\<close> is the clock read by the existence check (line 58), \<open>now2\<close> the
  clock read when the expiration is computed (line 66).
\<close>

definition Set :: "'v Cache \<Rightarrow> int64 \<Rightarrow> int64 \<Rightarrow> string \<Rightarrow> 'v iface \<Rightarrow> int64
    \<Rightarrow> error option \<times> 'v Cache" where
  "Set c now1 now2 key v ttl =
     (if (case data c key of
            None \<Rightarrow> False
          | Some d \<Rightarrow> expiration d = 0 \<or> sint now1 < sint (expiration d))
      then (Some ErrKeyExists, c)
      else
        let e = (if 0 < sint ttl then now2 + ttl else 0)
        in (None, c\<lparr>data := (data c)(key \<mapsto> \<lparr>val = v, expiration = e\<rparr>)\<rparr>))"

text \<open>\<open>Has\<close>: the Go results \<open>(bool, error)\<close>, then the cache.\<close>

definition Has :: "'v Cache \<Rightarrow> int64 \<Rightarrow> string \<Rightarrow> (bool \<times> error option) \<times> 'v Cache" where
  "Has c now key =
     (case data c key of
        None \<Rightarrow> ((False, Some ErrKeyNotFound), c)
      | Some d \<Rightarrow>
          if expiration d \<noteq> 0 \<and> sint (expiration d) < sint now
          then ((False, Some ErrExpired), c\<lparr>data := (data c)(key := None)\<rparr>)
          else ((True, None), c))"

text \<open>\<open>Get\<close>: the Go results \<open>(interface{}, error)\<close>, then the cache.\<close>

definition Get :: "'v Cache \<Rightarrow> int64 \<Rightarrow> string \<Rightarrow> ('v iface \<times> error option) \<times> 'v Cache" where
  "Get c now key =
     (case Has c now key of
        ((_, Some err), c') \<Rightarrow> ((INil, Some err), c')
      | ((_, None), c') \<Rightarrow> ((val (index_data c' key), None), c'))"

text \<open>
  A call of one of the three methods of the interface \<open>Cacher\<close>, with the clock
  readings it makes, and the cache after a sequence of calls.
\<close>

datatype 'v call =
  CallSet int64 int64 string "'v iface" int64
| CallGet int64 string
| CallHas int64 string

fun step :: "'v Cache \<Rightarrow> 'v call \<Rightarrow> 'v Cache" where
  "step c (CallSet now1 now2 key v ttl) = snd (Set c now1 now2 key v ttl)"
| "step c (CallGet now key) = snd (Get c now key)"
| "step c (CallHas now key) = snd (Has c now key)"

definition run :: "'v Cache \<Rightarrow> 'v call list \<Rightarrow> 'v Cache" where
  "run c calls = foldl step c calls"

section \<open>Basic facts\<close>

lemma Has_absent:
  "data c key = None \<Longrightarrow> Has c now key = ((False, Some ErrKeyNotFound), c)"
  by (simp add: Has_def)

lemma Has_live:
  "data c key = Some d \<Longrightarrow> expiration d = 0 \<or> sint now \<le> sint (expiration d) \<Longrightarrow>
   Has c now key = ((True, None), c)"
  by (auto simp: Has_def)

lemma Has_expired:
  "data c key = Some d \<Longrightarrow> expiration d \<noteq> 0 \<Longrightarrow> sint (expiration d) < sint now \<Longrightarrow>
   Has c now key = ((False, Some ErrExpired), c\<lparr>data := (data c)(key := None)\<rparr>)"
  by (simp add: Has_def)

lemma Get_absent:
  "data c key = None \<Longrightarrow> Get c now key = ((INil, Some ErrKeyNotFound), c)"
  by (simp add: Get_def Has_absent)

lemma Get_live:
  "data c key = Some d \<Longrightarrow> expiration d = 0 \<or> sint now \<le> sint (expiration d) \<Longrightarrow>
   Get c now key = ((val d, None), c)"
  by (simp add: Get_def Has_live index_data_def)

lemma Get_expired:
  "data c key = Some d \<Longrightarrow> expiration d \<noteq> 0 \<Longrightarrow> sint (expiration d) < sint now \<Longrightarrow>
   Get c now key = ((INil, Some ErrExpired), c\<lparr>data := (data c)(key := None)\<rparr>)"
  by (simp add: Get_def Has_expired)

lemma Set_exists:
  "data c key = Some d \<Longrightarrow> expiration d = 0 \<or> sint now1 < sint (expiration d) \<Longrightarrow>
   Set c now1 now2 key v ttl = (Some ErrKeyExists, c)"
  by (auto simp: Set_def)

lemma Set_writes:
  "data c key = None \<or>
     (\<exists>d. data c key = Some d \<and> expiration d \<noteq> 0 \<and> sint (expiration d) \<le> sint now1) \<Longrightarrow>
   Set c now1 now2 key v ttl =
     (None, c\<lparr>data := (data c)(key \<mapsto>
        \<lparr>val = v, expiration = (if 0 < sint ttl then now2 + ttl else 0)\<rparr>)\<rparr>)"
  by (auto simp: Set_def Let_def)

lemma Set_success_data:
  "Set c now1 now2 key v ttl = (None, c1) \<Longrightarrow>
   data c1 key = Some \<lparr>val = v, expiration = (if 0 < sint ttl then now2 + ttl else 0)\<rparr>"
  by (auto simp: Set_def Let_def split: if_splits)

lemma Set_KeyExists_iff:
  "fst (Set c now1 now2 key v ttl) = Some ErrKeyExists \<longleftrightarrow>
   (\<exists>d. data c key = Some d \<and> (expiration d = 0 \<or> sint now1 < sint (expiration d)))"
  by (auto simp: Set_def Let_def split: option.splits)

lemma Get_state: "snd (Get c now key) = snd (Has c now key)"
  by (simp add: Get_def split: prod.splits option.splits)

lemma Set_other_key: "key' \<noteq> key \<Longrightarrow> data (snd (Set c now1 now2 key v ttl)) key' = data c key'"
  by (simp add: Set_def Let_def)

lemma Has_other_key: "key' \<noteq> key \<Longrightarrow> data (snd (Has c now key)) key' = data c key'"
  by (simp add: Has_def split: option.splits)

text \<open>
  An entry with the sentinel expiration 0 survives every call: \<open>Set\<close> on its key
  fails, \<open>Has\<close> and \<open>Get\<close> on its key find it live, and a call on another key does
  not touch it.
\<close>

lemma step_keeps_sentinel:
  assumes "data c k = Some d" and "expiration d = 0"
  shows "data (step c call) k = Some d"
proof (cases call)
  case (CallSet now1 now2 key v ttl)
  show ?thesis
  proof (cases "key = k")
    case True
    with assms CallSet show ?thesis by (simp add: Set_exists)
  next
    case False
    with assms CallSet show ?thesis by (simp add: Set_other_key)
  qed
next
  case (CallGet now key)
  show ?thesis
  proof (cases "key = k")
    case True
    with assms CallGet show ?thesis by (simp add: Get_state Has_live)
  next
    case False
    with assms CallGet show ?thesis by (simp add: Get_state Has_other_key)
  qed
next
  case (CallHas now key)
  show ?thesis
  proof (cases "key = k")
    case True
    with assms CallHas show ?thesis by (simp add: Has_live)
  next
    case False
    with assms CallHas show ?thesis by (simp add: Has_other_key)
  qed
qed

lemma run_keeps_sentinel:
  "data c k = Some d \<Longrightarrow> expiration d = 0 \<Longrightarrow> data (run c calls) k = Some d"
  unfolding run_def
  by (induction calls arbitrary: c) (simp_all add: step_keeps_sentinel)

text \<open>
  No clobber strictly before expiration. Let \<open>Set c t0 t0' k v1 ttl\<close> succeed, so
  that the entry of \<open>k\<close> holds \<open>v1\<close> and the expiration \<open>e\<close> that \<open>Set\<close> computed.
  A second \<open>Set\<close> on \<open>k\<close> with \<open>e = 0\<close> or a clock strictly before \<open>e\<close> fails with
  \<open>ErrKeyExists\<close> and returns the cache as it was, and \<open>Get\<close> on \<open>k\<close> at any time
  not later than \<open>e\<close> still returns \<open>v1\<close>. The hypothesis on the clock of the second
  \<open>Set\<close> cannot be relaxed to \<open>sint t \<le> sint e\<close>: see \<open>Set_KeyExists_iff\<close>.
\<close>

lemma Set_no_clobber_before_expiration:
  assumes "Set c t0 t0' k v1 ttl = (None, c1)"
    and "e = (if 0 < sint ttl then t0' + ttl else 0)"
    and "e = 0 \<or> sint t < sint e"
    and "e = 0 \<or> sint t3 \<le> sint e"
  shows "Set c1 t t' k v2 ttl2 = (Some ErrKeyExists, c1)
       \<and> Get (snd (Set c1 t t' k v2 ttl2)) t3 k = ((v1, None), c1)"
proof -
  from assms(1,2) have d: "data c1 k = Some \<lparr>val = v1, expiration = e\<rparr>"
    by (simp add: Set_success_data)
  from assms(3) have s: "Set c1 t t' k v2 ttl2 = (Some ErrKeyExists, c1)"
    by (intro Set_exists [OF d]) simp
  from assms(4) have "Get c1 t3 k = ((v1, None), c1)"
    using Get_live [OF d, of t3] by simp
  with s show ?thesis by simp
qed

section \<open>The claims\<close>

text \<open>
  C1 (no clobber while live). The code at the instant of expiration. On an empty
  cache \<open>Set\<close> stores the value 1 for \<open>c\<close> at time 1000 with ttl 100, so the
  expiration is 1100. At time 1100 the expiration has not passed: \<open>Has\<close> reports
  the entry present and \<open>Get\<close> returns 1. A second \<open>Set\<close> at time 1100 nevertheless
  returns no error and replaces the entry, and the \<open>Get\<close> that follows returns the
  new value 2 instead of 1. Strictly before the expiration the second \<open>Set\<close> does
  fail and the value is kept, see \<open>Set_no_clobber_before_expiration\<close>.
\<close>

theorem Set_clobbers_at_expiration_instant:
  "Set (NewCache []) 1000 1000 ''c'' (IVal (1::int)) 100
     = (None, \<lparr>data = [''c'' \<mapsto> \<lparr>val = IVal 1, expiration = 1100\<rparr>]\<rparr>)
   \<and> Has \<lparr>data = [''c'' \<mapsto> \<lparr>val = IVal (1::int), expiration = 1100\<rparr>]\<rparr> 1100 ''c''
     = ((True, None), \<lparr>data = [''c'' \<mapsto> \<lparr>val = IVal 1, expiration = 1100\<rparr>]\<rparr>)
   \<and> Get \<lparr>data = [''c'' \<mapsto> \<lparr>val = IVal (1::int), expiration = 1100\<rparr>]\<rparr> 1100 ''c''
     = ((IVal 1, None), \<lparr>data = [''c'' \<mapsto> \<lparr>val = IVal 1, expiration = 1100\<rparr>]\<rparr>)
   \<and> Set \<lparr>data = [''c'' \<mapsto> \<lparr>val = IVal (1::int), expiration = 1100\<rparr>]\<rparr>
         1100 1100 ''c'' (IVal 2) 100
     = (None, \<lparr>data = [''c'' \<mapsto> \<lparr>val = IVal 2, expiration = 1200\<rparr>]\<rparr>)
   \<and> Get (snd (Set \<lparr>data = [''c'' \<mapsto> \<lparr>val = IVal (1::int), expiration = 1100\<rparr>]\<rparr>
                 1100 1100 ''c'' (IVal 2) 100)) 1100 ''c''
     = ((IVal 2, None), \<lparr>data = [''c'' \<mapsto> \<lparr>val = IVal 2, expiration = 1200\<rparr>]\<rparr>)"
  by (simp add: Has_def Get_def Set_def index_data_def NewCache_def)

text \<open>
  C2 (\<open>Set\<close> against the liveness of \<open>Has\<close>). The code at the instant of expiration.
  On an empty cache \<open>Set\<close> stores the value 1 for \<open>k\<close> at time 90 with ttl 10, so the
  expiration is 100. At time 100 \<open>Has\<close> finds the entry live and \<open>Get\<close> returns its
  value, yet \<open>Set\<close> at time 100 does not fail with \<open>ErrKeyExists\<close>: it returns no
  error and replaces the entry. The comparison of \<open>Set\<close> is strict where that of
  \<open>Has\<close> is not, see \<open>Set_KeyExists_iff\<close> and \<open>Has_live\<close>.
\<close>

theorem Set_overwrites_entry_live_for_Has:
  "Set (NewCache []) 90 90 ''k'' (IVal (1::int)) 10
     = (None, \<lparr>data = [''k'' \<mapsto> \<lparr>val = IVal 1, expiration = 100\<rparr>]\<rparr>)
   \<and> Has \<lparr>data = [''k'' \<mapsto> \<lparr>val = IVal (1::int), expiration = 100\<rparr>]\<rparr> 100 ''k''
     = ((True, None), \<lparr>data = [''k'' \<mapsto> \<lparr>val = IVal 1, expiration = 100\<rparr>]\<rparr>)
   \<and> Get \<lparr>data = [''k'' \<mapsto> \<lparr>val = IVal (1::int), expiration = 100\<rparr>]\<rparr> 100 ''k''
     = ((IVal 1, None), \<lparr>data = [''k'' \<mapsto> \<lparr>val = IVal 1, expiration = 100\<rparr>]\<rparr>)
   \<and> Set \<lparr>data = [''k'' \<mapsto> \<lparr>val = IVal (1::int), expiration = 100\<rparr>]\<rparr> 100 100 ''k'' (IVal 2) 0
     = (None, \<lparr>data = [''k'' \<mapsto> \<lparr>val = IVal 2, expiration = 0\<rparr>]\<rparr>)"
  by (simp add: Has_def Get_def Set_def index_data_def NewCache_def)

text \<open>
  C3 (overwrite after expiry). When the entry of \<open>k\<close> has an expiration (not the
  sentinel 0) strictly before the clock that \<open>Set\<close> reads, \<open>Set\<close> succeeds and
  replaces the entry by the new value with expiration \<open>e\<close>: the clock plus \<open>ttl2\<close>
  when \<open>ttl2\<close> is positive, the sentinel 0 otherwise. A \<open>Get\<close> on \<open>k\<close> after it, at a
  time not later than \<open>e\<close> (or any time when \<open>e = 0\<close>), returns the new value with no
  error and leaves the cache as \<open>Set\<close> left it.
\<close>

theorem Set_overwrites_expired:
  assumes "data c k = Some d" and "expiration d \<noteq> 0"
    and "sint (expiration d) < sint now1"
    and "e = (if 0 < sint ttl2 then now2 + ttl2 else 0)"
    and "e = 0 \<or> sint t \<le> sint e"
  shows "Set c now1 now2 k v2 ttl2
           = (None, c\<lparr>data := (data c)(k \<mapsto> \<lparr>val = v2, expiration = e\<rparr>)\<rparr>)
       \<and> Get (snd (Set c now1 now2 k v2 ttl2)) t k
           = ((v2, None), c\<lparr>data := (data c)(k \<mapsto> \<lparr>val = v2, expiration = e\<rparr>)\<rparr>)"
proof -
  let ?c' = "c\<lparr>data := (data c)(k \<mapsto> \<lparr>val = v2, expiration = e\<rparr>)\<rparr>"
  from assms(1-3) have "data c k = None \<or>
      (\<exists>d. data c k = Some d \<and> expiration d \<noteq> 0 \<and> sint (expiration d) \<le> sint now1)"
    by auto
  then have s: "Set c now1 now2 k v2 ttl2 = (None, ?c')"
    unfolding assms(4) by (rule Set_writes)
  have "data ?c' k = Some \<lparr>val = v2, expiration = e\<rparr>" by simp
  then have "Get ?c' t k = ((val \<lparr>val = v2, expiration = e\<rparr>, None), ?c')"
    using assms(5) by (intro Get_live) simp_all
  with s show ?thesis by simp
qed

theorem Set_overwrites_expired_witness:
  "Set \<lparr>data = [''d'' \<mapsto> \<lparr>val = IVal (1::int), expiration = 1001\<rparr>]\<rparr> 1002 1002 ''d'' (IVal 2) 100
     = (None, \<lparr>data = [''d'' \<mapsto> \<lparr>val = IVal 2, expiration = 1102\<rparr>]\<rparr>)
   \<and> Get (snd (Set \<lparr>data = [''d'' \<mapsto> \<lparr>val = IVal (1::int), expiration = 1001\<rparr>]\<rparr>
                 1002 1002 ''d'' (IVal 2) 100)) 1002 ''d''
     = ((IVal 2, None), \<lparr>data = [''d'' \<mapsto> \<lparr>val = IVal 2, expiration = 1102\<rparr>]\<rparr>)"
  using Set_overwrites_expired
    [of "\<lparr>data = [''d'' \<mapsto> \<lparr>val = IVal (1::int), expiration = 1001\<rparr>]\<rparr>" "''d''"
        "\<lparr>val = IVal 1, expiration = 1001\<rparr>" 1002 1102 100 1002 1002 "IVal 2"]
  by (simp add: Set_def Get_def Has_def index_data_def)

text \<open>
  C4 (lazy deletion, \<open>ErrExpired\<close> once). When the entry of \<open>k\<close> has an expiration
  (not the sentinel 0) strictly before the clock, \<open>Has\<close> returns
  \<open>(false, ErrExpired)\<close> and \<open>Get\<close> returns \<open>(nil, ErrExpired)\<close>, and that call
  returns the cache without the entry of \<open>k\<close>. On the cache so left, \<open>Has\<close> and
  \<open>Get\<close> on \<open>k\<close> at any time return \<open>ErrKeyNotFound\<close> and change nothing.
\<close>

theorem expired_reported_once:
  assumes "data c k = Some d" and "expiration d \<noteq> 0"
    and "sint (expiration d) < sint now"
  shows "Has c now k = ((False, Some ErrExpired), c\<lparr>data := (data c)(k := None)\<rparr>)
       \<and> Get c now k = ((INil, Some ErrExpired), c\<lparr>data := (data c)(k := None)\<rparr>)
       \<and> data (c\<lparr>data := (data c)(k := None)\<rparr>) k = None
       \<and> Has (c\<lparr>data := (data c)(k := None)\<rparr>) t k
           = ((False, Some ErrKeyNotFound), c\<lparr>data := (data c)(k := None)\<rparr>)
       \<and> Get (c\<lparr>data := (data c)(k := None)\<rparr>) t k
           = ((INil, Some ErrKeyNotFound), c\<lparr>data := (data c)(k := None)\<rparr>)"
proof -
  let ?c' = "c\<lparr>data := (data c)(k := None)\<rparr>"
  have gone: "data ?c' k = None" by simp
  have "Has c now k = ((False, Some ErrExpired), ?c')"
    using assms by (rule Has_expired)
  moreover have "Get c now k = ((INil, Some ErrExpired), ?c')"
    using assms by (rule Get_expired)
  moreover have "Has ?c' t k = ((False, Some ErrKeyNotFound), ?c')"
    using gone by (rule Has_absent)
  moreover have "Get ?c' t k = ((INil, Some ErrKeyNotFound), ?c')"
    using gone by (rule Get_absent)
  ultimately show ?thesis using gone by simp
qed

theorem expired_reported_once_witness:
  "Get \<lparr>data = [''b'' \<mapsto> \<lparr>val = IVal (1::int), expiration = 1001\<rparr>]\<rparr> 1002 ''b''
     = ((INil, Some ErrExpired), \<lparr>data = Map.empty\<rparr>)
   \<and> Has \<lparr>data = [''b'' \<mapsto> \<lparr>val = IVal (1::int), expiration = 1001\<rparr>]\<rparr> 1002 ''b''
     = ((False, Some ErrExpired), \<lparr>data = Map.empty\<rparr>)
   \<and> Get (\<lparr>data = Map.empty\<rparr> :: int Cache) 1002 ''b''
     = ((INil, Some ErrKeyNotFound), \<lparr>data = Map.empty\<rparr>)
   \<and> Has (\<lparr>data = Map.empty\<rparr> :: int Cache) 1002 ''b''
     = ((False, Some ErrKeyNotFound), \<lparr>data = Map.empty\<rparr>)"
  using expired_reported_once
    [of "\<lparr>data = [''b'' \<mapsto> \<lparr>val = IVal (1::int), expiration = 1001\<rparr>]\<rparr>" "''b''"
        "\<lparr>val = IVal 1, expiration = 1001\<rparr>" 1002 1002]
  by (simp add: Get_def Has_def)

text \<open>
  C5 (never expiring). After \<open>Set c now1 now2 k v 0\<close> succeeds, let any sequence of
  calls of \<open>Set\<close>, \<open>Get\<close> and \<open>Has\<close> follow, on any keys and at any clock readings
  (none of them can overwrite the entry: a \<open>Set\<close> on \<open>k\<close> fails). Then \<open>Get\<close> on \<open>k\<close>,
  at any time \<open>t\<close>, returns \<open>v\<close> with no error and changes nothing.
\<close>

theorem Set_ttl_zero_never_expires:
  assumes "Set c now1 now2 k v 0 = (None, c1)"
  shows "Get (run c1 calls) t k = ((v, None), run c1 calls)"
proof -
  from assms have "data c1 k = Some \<lparr>val = v, expiration = 0\<rparr>"
    using Set_success_data [of c now1 now2 k v 0 c1] by simp
  then have "data (run c1 calls) k = Some \<lparr>val = v, expiration = 0\<rparr>"
    by (rule run_keeps_sentinel) simp
  then have "Get (run c1 calls) t k = ((val \<lparr>val = v, expiration = 0\<rparr>, None), run c1 calls)"
    by (rule Get_live) simp
  then show ?thesis by simp
qed

theorem Set_ttl_zero_never_expires_witness:
  "Set (NewCache []) 1000 1000 ''a'' (IVal (1::int)) 0
     = (None, \<lparr>data = [''a'' \<mapsto> \<lparr>val = IVal 1, expiration = 0\<rparr>]\<rparr>)
   \<and> Get (run \<lparr>data = [''a'' \<mapsto> \<lparr>val = IVal (1::int), expiration = 0\<rparr>]\<rparr>
             [CallSet 2000 2000 ''a'' (IVal 2) 5, CallHas 3000 ''a''])
          9223372036854775807 ''a''
     = ((IVal 1, None),
        run \<lparr>data = [''a'' \<mapsto> \<lparr>val = IVal 1, expiration = 0\<rparr>]\<rparr>
          [CallSet 2000 2000 ''a'' (IVal 2) 5, CallHas 3000 ''a''])"
proof -
  have a: "Set (NewCache []) 1000 1000 ''a'' (IVal (1::int)) 0
     = (None, \<lparr>data = [''a'' \<mapsto> \<lparr>val = IVal 1, expiration = 0\<rparr>]\<rparr>)"
    by (simp add: Set_def NewCache_def)
  show ?thesis
    by (rule conjI [OF a Set_ttl_zero_never_expires [OF a]])
qed

text \<open>
  C6 (\<open>Has\<close>, three cases). If \<open>k\<close> is absent, \<open>Has\<close> returns
  \<open>(false, ErrKeyNotFound)\<close> and the cache unchanged. If \<open>k\<close> is present with
  expiration 0 (the sentinel) or an expiration not earlier than the clock, \<open>Has\<close>
  returns \<open>(true, nil)\<close> and the cache unchanged. If \<open>k\<close> is present with an
  expiration that is not the sentinel and is strictly earlier than the clock, \<open>Has\<close>
  returns \<open>(false, ErrExpired)\<close> and the cache with the entry of \<open>k\<close> deleted.
\<close>

theorem Has_three_cases:
  "(data c k = None \<longrightarrow> Has c now k = ((False, Some ErrKeyNotFound), c))
   \<and> (\<forall>d. data c k = Some d \<and> (expiration d = 0 \<or> sint now \<le> sint (expiration d))
         \<longrightarrow> Has c now k = ((True, None), c))
   \<and> (\<forall>d. data c k = Some d \<and> expiration d \<noteq> 0 \<and> sint (expiration d) < sint now
         \<longrightarrow> Has c now k = ((False, Some ErrExpired), c\<lparr>data := (data c)(k := None)\<rparr>))"
proof (intro conjI allI impI)
  assume "data c k = None"
  then show "Has c now k = ((False, Some ErrKeyNotFound), c)"
    by (rule Has_absent)
next
  fix d
  assume "data c k = Some d \<and> (expiration d = 0 \<or> sint now \<le> sint (expiration d))"
  then show "Has c now k = ((True, None), c)"
    using Has_live [of c k d now] by blast
next
  fix d
  assume "data c k = Some d \<and> expiration d \<noteq> 0 \<and> sint (expiration d) < sint now"
  then show "Has c now k = ((False, Some ErrExpired), c\<lparr>data := (data c)(k := None)\<rparr>)"
    using Has_expired [of c k d now] by blast
qed

theorem Has_three_cases_witness:
  "Has (NewCache [] :: int Cache) 100 ''e'' = ((False, Some ErrKeyNotFound), NewCache [])
   \<and> Has \<lparr>data = [''a'' \<mapsto> \<lparr>val = IVal (1::int), expiration = 0\<rparr>]\<rparr> 100 ''a''
       = ((True, None), \<lparr>data = [''a'' \<mapsto> \<lparr>val = IVal 1, expiration = 0\<rparr>]\<rparr>)
   \<and> Has \<lparr>data = [''a'' \<mapsto> \<lparr>val = IVal (1::int), expiration = 100\<rparr>]\<rparr> 100 ''a''
       = ((True, None), \<lparr>data = [''a'' \<mapsto> \<lparr>val = IVal 1, expiration = 100\<rparr>]\<rparr>)
   \<and> Has \<lparr>data = [''a'' \<mapsto> \<lparr>val = IVal (1::int), expiration = 99\<rparr>]\<rparr> 100 ''a''
       = ((False, Some ErrExpired), \<lparr>data = Map.empty\<rparr>)"
  using Has_three_cases [of "NewCache [] :: int Cache" "''e''" 100]
    Has_three_cases [of "\<lparr>data = [''a'' \<mapsto> \<lparr>val = IVal (1::int), expiration = 0\<rparr>]\<rparr>" "''a''" 100]
    Has_three_cases [of "\<lparr>data = [''a'' \<mapsto> \<lparr>val = IVal (1::int), expiration = 100\<rparr>]\<rparr>" "''a''" 100]
    Has_three_cases [of "\<lparr>data = [''a'' \<mapsto> \<lparr>val = IVal (1::int), expiration = 99\<rparr>]\<rparr>" "''a''" 100]
  by (simp add: NewCache_def)

text \<open>
  C7 (\<open>Get\<close> after \<open>Has\<close>). When \<open>Has\<close> reports false it gives an error, which is
  \<open>ErrKeyNotFound\<close> exactly when \<open>k\<close> is absent and \<open>ErrExpired\<close> otherwise, and
  \<open>Get\<close> returns nil with that same error and the cache as \<open>Has\<close> left it (the
  entry deleted when expired). When \<open>Has\<close> reports \<open>(true, nil)\<close>, the key has an
  entry, \<open>Get\<close> returns its value with no error, and neither changes the cache.
\<close>

theorem Get_follows_Has:
  "(fst (fst (Has c now k)) = False \<longrightarrow>
      (\<exists>err. snd (fst (Has c now k)) = Some err
         \<and> (err = ErrKeyNotFound \<or> err = ErrExpired)
         \<and> (err = ErrKeyNotFound \<longleftrightarrow> data c k = None)
         \<and> (err = ErrExpired \<longrightarrow> data (snd (Has c now k)) k = None)
         \<and> Get c now k = ((INil, Some err), snd (Has c now k))))
   \<and> (fst (Has c now k) = (True, None) \<longrightarrow>
      (\<exists>d. data c k = Some d \<and> Get c now k = ((val d, None), c)) \<and> snd (Has c now k) = c)
   \<and> (fst (fst (Has c now k)) = True \<longrightarrow> fst (Has c now k) = (True, None))"
proof (cases "data c k")
  case None
  then show ?thesis by (simp add: Has_absent Get_absent)
next
  case (Some d)
  show ?thesis
  proof (cases "expiration d \<noteq> 0 \<and> sint (expiration d) < sint now")
    case True
    with Some show ?thesis by (simp add: Has_expired Get_expired)
  next
    case False
    then have live: "expiration d = 0 \<or> sint now \<le> sint (expiration d)" by auto
    show ?thesis
      by (simp add: Has_live [OF Some live] Get_live [OF Some live] Some)
  qed
qed

theorem Get_follows_Has_witness:
  "Get (NewCache [] :: int Cache) 100 ''e'' = ((INil, Some ErrKeyNotFound), NewCache [])
   \<and> Get \<lparr>data = [''a'' \<mapsto> \<lparr>val = IVal (1::int), expiration = 100\<rparr>]\<rparr> 100 ''a''
       = ((IVal 1, None), \<lparr>data = [''a'' \<mapsto> \<lparr>val = IVal 1, expiration = 100\<rparr>]\<rparr>)
   \<and> Get \<lparr>data = [''a'' \<mapsto> \<lparr>val = IVal (1::int), expiration = 99\<rparr>]\<rparr> 100 ''a''
       = ((INil, Some ErrExpired), \<lparr>data = Map.empty\<rparr>)"
proof -
  let ?c0 = "NewCache [] :: int Cache"
  let ?c1 = "\<lparr>data = [''a'' \<mapsto> \<lparr>val = IVal (1::int), expiration = 100\<rparr>]\<rparr>"
  let ?c2 = "\<lparr>data = [''a'' \<mapsto> \<lparr>val = IVal (1::int), expiration = 99\<rparr>]\<rparr>"
  have h0: "Has ?c0 100 ''e'' = ((False, Some ErrKeyNotFound), ?c0)"
    by (simp add: Has_def NewCache_def)
  have h1: "Has ?c1 100 ''a'' = ((True, None), ?c1)"
    by (simp add: Has_def)
  have h2: "Has ?c2 100 ''a'' = ((False, Some ErrExpired), \<lparr>data = Map.empty\<rparr>)"
    by (simp add: Has_def)
  have g0: "Get ?c0 100 ''e'' = ((INil, Some ErrKeyNotFound), ?c0)"
    using Get_follows_Has [of ?c0 100 "''e''"] unfolding h0 by simp
  have g1: "Get ?c1 100 ''a'' = ((IVal 1, None), ?c1)"
    using Get_follows_Has [of ?c1 100 "''a''"] unfolding h1 by simp
  have g2: "Get ?c2 100 ''a'' = ((INil, Some ErrExpired), \<lparr>data = Map.empty\<rparr>)"
    using Get_follows_Has [of ?c2 100 "''a''"] unfolding h2 by simp
  from g0 g1 g2 show ?thesis by (intro conjI)
qed

text \<open>
  C8 (the empty key). When the empty key has no live entry (it is absent, or its
  expiration is not the sentinel and the clock of \<open>Set\<close> has reached it), \<open>Set\<close> on
  the empty key succeeds for every value and ttl, and a \<open>Get\<close> on the empty key, at
  a time not later than the new expiration \<open>e\<close> (or any time when \<open>e = 0\<close>), returns
  the value with no error.
\<close>

theorem empty_key_accepted:
  assumes "data c [] = None \<or>
      (\<exists>d. data c [] = Some d \<and> expiration d \<noteq> 0 \<and> sint (expiration d) \<le> sint now1)"
    and "e = (if 0 < sint ttl then now2 + ttl else 0)"
    and "e = 0 \<or> sint t \<le> sint e"
  shows "Set c now1 now2 [] v ttl
           = (None, c\<lparr>data := (data c)([] \<mapsto> \<lparr>val = v, expiration = e\<rparr>)\<rparr>)
       \<and> Get (snd (Set c now1 now2 [] v ttl)) t []
           = ((v, None), c\<lparr>data := (data c)([] \<mapsto> \<lparr>val = v, expiration = e\<rparr>)\<rparr>)"
proof -
  let ?c' = "c\<lparr>data := (data c)([] \<mapsto> \<lparr>val = v, expiration = e\<rparr>)\<rparr>"
  have s: "Set c now1 now2 [] v ttl = (None, ?c')"
    unfolding assms(2) using assms(1) by (rule Set_writes)
  have "data ?c' [] = Some \<lparr>val = v, expiration = e\<rparr>" by simp
  then have "Get ?c' t [] = ((val \<lparr>val = v, expiration = e\<rparr>, None), ?c')"
    using assms(3) by (intro Get_live) simp_all
  with s show ?thesis by simp
qed

theorem empty_key_accepted_witness:
  "Set (NewCache [] :: int Cache) 1000 1000 [] (IVal 7) 60
     = (None, \<lparr>data = [[] \<mapsto> \<lparr>val = IVal 7, expiration = 1060\<rparr>]\<rparr>)
   \<and> Get (snd (Set (NewCache [] :: int Cache) 1000 1000 [] (IVal 7) 60)) 1060 []
     = ((IVal 7, None), \<lparr>data = [[] \<mapsto> \<lparr>val = IVal 7, expiration = 1060\<rparr>]\<rparr>)"
proof -
  have a: "data (NewCache [] :: int Cache) [] = None \<or>
      (\<exists>d. data (NewCache [] :: int Cache) [] = Some d \<and> expiration d \<noteq> 0
           \<and> sint (expiration d) \<le> sint (1000::int64))"
    by (simp add: NewCache_def)
  have b: "(1060::int64) = (if 0 < sint (60::int64) then 1000 + 60 else 0)"
    by simp
  have c: "(1060::int64) = 0 \<or> sint (1060::int64) \<le> sint (1060::int64)"
    by simp
  have u: "(NewCache [] :: int Cache)\<lparr>data := (data (NewCache [] :: int Cache))
             ([] \<mapsto> \<lparr>val = IVal 7, expiration = 1060\<rparr>)\<rparr>
           = \<lparr>data = [[] \<mapsto> \<lparr>val = IVal 7, expiration = 1060\<rparr>]\<rparr>"
    by (simp add: NewCache_def)
  show ?thesis
    using empty_key_accepted [OF a b c, of "IVal 7"] unfolding u .
qed

text \<open>
  C9 (a ttl that is not positive). When \<open>Set\<close> succeeds with a ttl that is zero or
  negative, the entry it stores has the sentinel expiration 0; after any sequence
  of calls of \<open>Set\<close>, \<open>Get\<close> and \<open>Has\<close>, on any keys and at any clock readings, \<open>Get\<close>
  on the key at any time returns the value with no error.
\<close>

theorem Set_nonpositive_ttl_never_expires:
  assumes "sint ttl \<le> 0" and "Set c now1 now2 k v ttl = (None, c1)"
  shows "data c1 k = Some \<lparr>val = v, expiration = 0\<rparr>
       \<and> Get (run c1 calls) t k = ((v, None), run c1 calls)"
proof -
  from assms have d: "data c1 k = Some \<lparr>val = v, expiration = 0\<rparr>"
    using Set_success_data [of c now1 now2 k v ttl c1] by simp
  then have "data (run c1 calls) k = Some \<lparr>val = v, expiration = 0\<rparr>"
    by (rule run_keeps_sentinel) simp
  then have "Get (run c1 calls) t k = ((val \<lparr>val = v, expiration = 0\<rparr>, None), run c1 calls)"
    by (rule Get_live) simp
  with d show ?thesis by simp
qed

theorem Set_nonpositive_ttl_never_expires_witness:
  "sint (- 5 :: int64) \<le> 0
   \<and> Set (NewCache []) 1000 1000 ''n'' (IVal (1::int)) (- 5)
       = (None, \<lparr>data = [''n'' \<mapsto> \<lparr>val = IVal 1, expiration = 0\<rparr>]\<rparr>)
   \<and> data \<lparr>data = [''n'' \<mapsto> \<lparr>val = IVal (1::int), expiration = 0\<rparr>]\<rparr> ''n''
       = Some \<lparr>val = IVal 1, expiration = 0\<rparr>
   \<and> Get (run \<lparr>data = [''n'' \<mapsto> \<lparr>val = IVal (1::int), expiration = 0\<rparr>]\<rparr>
             [CallHas 5000 ''n'', CallSet 6000 6000 ''n'' (IVal 2) 0])
          9223372036854775807 ''n''
       = ((IVal 1, None),
          run \<lparr>data = [''n'' \<mapsto> \<lparr>val = IVal 1, expiration = 0\<rparr>]\<rparr>
            [CallHas 5000 ''n'', CallSet 6000 6000 ''n'' (IVal 2) 0])"
proof -
  have a: "sint (- 5 :: int64) \<le> 0" by simp
  have b: "Set (NewCache []) 1000 1000 ''n'' (IVal (1::int)) (- 5)
       = (None, \<lparr>data = [''n'' \<mapsto> \<lparr>val = IVal 1, expiration = 0\<rparr>]\<rparr>)"
    by (simp add: Set_def NewCache_def)
  show ?thesis
    by (intro conjI a b) (rule Set_nonpositive_ttl_never_expires [OF a b, THEN conjunct1],
        rule Set_nonpositive_ttl_never_expires [OF a b, THEN conjunct2])
qed

text \<open>
  C10 (frame). A call with key \<open>k\<close> leaves the entry of every other key \<open>k'\<close> as it
  was: this holds for \<open>Set\<close>, for \<open>Has\<close> and for \<open>Get\<close>. Moreover \<open>Get\<close> leaves the
  cache exactly as \<open>Has\<close> does, \<open>Has\<close> changes the cache at most by deleting the
  entry of \<open>k\<close>, and \<open>Set\<close> at most by writing the entry of \<open>k\<close>.
\<close>

theorem calls_leave_other_keys:
  assumes "k' \<noteq> k"
  shows "data (snd (Set c now1 now2 k v ttl)) k' = data c k'
       \<and> data (snd (Has c now k)) k' = data c k'
       \<and> data (snd (Get c now k)) k' = data c k'
       \<and> snd (Get c now k) = snd (Has c now k)
       \<and> (snd (Has c now k) = c \<or> snd (Has c now k) = c\<lparr>data := (data c)(k := None)\<rparr>)
       \<and> (snd (Set c now1 now2 k v ttl) = c
          \<or> (\<exists>d. snd (Set c now1 now2 k v ttl) = c\<lparr>data := (data c)(k \<mapsto> d)\<rparr>))"
proof -
  have "snd (Has c now k) = c \<or> snd (Has c now k) = c\<lparr>data := (data c)(k := None)\<rparr>"
    by (simp add: Has_def split: option.splits)
  moreover have "snd (Set c now1 now2 k v ttl) = c
      \<or> (\<exists>d. snd (Set c now1 now2 k v ttl) = c\<lparr>data := (data c)(k \<mapsto> d)\<rparr>)"
    by (auto simp: Set_def Let_def)
  ultimately show ?thesis
    using assms by (simp add: Set_other_key Has_other_key Get_state)
qed

theorem calls_leave_other_keys_witness:
  "data (snd (Set \<lparr>data = [''x'' \<mapsto> \<lparr>val = IVal (1::int), expiration = 50\<rparr>,
                           ''y'' \<mapsto> \<lparr>val = IVal 2, expiration = 60\<rparr>]\<rparr>
                100 100 ''x'' (IVal 3) 10)) ''y''
     = Some \<lparr>val = IVal 2, expiration = 60\<rparr>
   \<and> data (snd (Has \<lparr>data = [''x'' \<mapsto> \<lparr>val = IVal (1::int), expiration = 50\<rparr>,
                           ''y'' \<mapsto> \<lparr>val = IVal 2, expiration = 60\<rparr>]\<rparr> 100 ''x'')) ''y''
     = Some \<lparr>val = IVal 2, expiration = 60\<rparr>
   \<and> data (snd (Get \<lparr>data = [''x'' \<mapsto> \<lparr>val = IVal (1::int), expiration = 50\<rparr>,
                           ''y'' \<mapsto> \<lparr>val = IVal 2, expiration = 60\<rparr>]\<rparr> 100 ''x'')) ''y''
     = Some \<lparr>val = IVal 2, expiration = 60\<rparr>"
proof -
  let ?c = "\<lparr>data = [''x'' \<mapsto> \<lparr>val = IVal (1::int), expiration = 50\<rparr>,
                     ''y'' \<mapsto> \<lparr>val = IVal 2, expiration = 60\<rparr>]\<rparr>"
  have ne: "''y'' \<noteq> ''x''" by simp
  have y: "data ?c ''y'' = Some \<lparr>val = IVal 2, expiration = 60\<rparr>" by simp
  note f = calls_leave_other_keys [OF ne, of ?c 100 100 "IVal 3" 10 100]
  from f have "data (snd (Set ?c 100 100 ''x'' (IVal 3) 10)) ''y'' = data ?c ''y''"
    by (rule conjunct1)
  moreover from f have "data (snd (Has ?c 100 ''x'')) ''y'' = data ?c ''y''"
    by (rule conjunct2 [THEN conjunct1])
  moreover from f have "data (snd (Get ?c 100 ''x'')) ''y'' = data ?c ''y''"
    by (rule conjunct2 [THEN conjunct2, THEN conjunct1])
  ultimately show ?thesis unfolding y by (intro conjI)
qed

end
